theory Spec2Isabelle
  imports Complex_Main "HOL-Library.AList"
begin

section \<open>TaskTimer: a tick-driven task scheduler\<close>

text \<open>
  A shallow embedding of \<^verbatim>\<open>src/TaskTimer.ts\<close>. The private state object \<^verbatim>\<open>this._\<close> and the
  interval handle \<^verbatim>\<open>this._timer\<close> become one record that every method takes and returns;
  a \<^verbatim>\<open>throw\<close> becomes the left summand of the result, paired with the state at the moment of
  the throw; \<^verbatim>\<open>Date.now()\<close> is a parameter \<open>now\<close>. The events handed to the emitter are
  appended to a log, so that "emits" and "emits nothing" are statements about that log.

  Private methods, whose names start with an underscore in the source, carry the prefix
  \<open>priv_\<close> here (\<^verbatim>\<open>_tick\<close> is \<open>priv_tick\<close>, and so on).

  A task callback and an event listener are user code. They are opaque here: a callback is a
  handle, and neither a callback nor a listener calls back into the scheduler or writes to a
  task. Every statement below is about runs of that kind, except the statements about the
  definitions whose names end in \<open>_heard\<close>: those take a listener of the \<open>task\<close> event as a
  function on the scheduler.
\<close>

subsection \<open>Numbers\<close>

text \<open>
  \<^verbatim>\<open>interval\<close> is a JavaScript number that the scheduler only tests for truthiness, stores
  and hands to \<^verbatim>\<open>setInterval\<close>. Such a number is \<^verbatim>\<open>NaN\<close>, an infinity, or a finite value;
  the falsy ones are \<^verbatim>\<open>NaN\<close> and zero. The counters are non-negative integers.
\<close>

datatype number = NaN | PosInfinity | NegInfinity | Finite real

fun falsy :: "number \<Rightarrow> bool" where
  "falsy NaN = True"
| "falsy (Finite x) = (x = 0)"
| "falsy PosInfinity = False"
| "falsy NegInfinity = False"

subsection \<open>Tasks\<close>

type_synonym callback = nat

record task =
  name :: string
  tickInterval :: nat
  totalRuns :: nat
  stopDate :: "nat option"
  currentRuns :: nat
  enabled :: bool
  completed :: bool
  callback :: callback

record task_options =
  opt_name :: "string option"
  opt_tickInterval :: "nat option"
  opt_totalRuns :: "nat option"
  opt_stopDate :: "nat option"
  opt_enabled :: "bool option"
  opt_callback :: "callback option"

datatype error =
    ConfigurationError
  | NamingConflict string
  | NotFound string

text \<open>
  Modelled from the spec: the class \<^verbatim>\<open>Task\<close>, imported from \<^verbatim>\<open>'.'\<close>, whose file is not
  among the sources. Its constructor follows the task options of the spec (section 6):
  \<^verbatim>\<open>tickInterval\<close> defaults to 1, \<^verbatim>\<open>enabled\<close> to true, an absent \<^verbatim>\<open>totalRuns\<close> is 0
  (unbounded), \<^verbatim>\<open>currentRuns\<close> starts at 0, and constructing a task without a callback fails.
\<close>

definition new_Task :: "task_options \<Rightarrow> error + task" where
  "new_Task opts =
     (case opt_callback opts of
        None \<Rightarrow> Inl ConfigurationError
      | Some cb \<Rightarrow>
          Inr \<lparr> name = (case opt_name opts of None \<Rightarrow> [] | Some n \<Rightarrow> n),
                tickInterval = (case opt_tickInterval opts of None \<Rightarrow> 1 | Some k \<Rightarrow> k),
                totalRuns = (case opt_totalRuns opts of None \<Rightarrow> 0 | Some k \<Rightarrow> k),
                stopDate = opt_stopDate opts,
                currentRuns = 0,
                enabled = (case opt_enabled opts of None \<Rightarrow> True | Some b \<Rightarrow> b),
                completed = False,
                callback = cb \<rparr>)"

text \<open>
  Modelled from the spec: the method \<^verbatim>\<open>Task._run(onRun)\<close> of the same absent class, from
  section 4.1 and from the comment at its call site ("below will not execute if task is
  disabled or already completed"). A disabled or completed task does nothing, which is
  \<open>None\<close>. Otherwise the callback is invoked, \<^verbatim>\<open>currentRuns\<close> is incremented, and the task
  becomes completed when \<^verbatim>\<open>totalRuns\<close> is set and reached or when \<^verbatim>\<open>stopDate\<close> has passed;
  the result is the task as \<^verbatim>\<open>onRun\<close> sees it. The re-evaluation of the stop date at decision
  time, which the spec allows but does not require, is not part of this model.
\<close>

definition Task_run :: "nat \<Rightarrow> task \<Rightarrow> task option" where
  "Task_run now t =
     (if enabled t \<and> \<not> completed t
      then
        let t1 = t\<lparr>currentRuns := currentRuns t + 1\<rparr>
        in Some (if (totalRuns t1 \<noteq> 0 \<and> totalRuns t1 \<le> currentRuns t1)
                     \<or> (case stopDate t1 of None \<Rightarrow> False | Some d \<Rightarrow> d \<le> now)
                 then t1\<lparr>completed := True\<rparr> else t1)
      else None)"

subsection \<open>The scheduler's state\<close>

datatype state = IDLE | RUNNING | PAUSED | STOPPED

datatype event_type =
    Tick | Started | Resumed | Paused | Stopped | Reset
  | Task | TaskAdded | TaskRemoved | TaskCompleted | Completed

text \<open>
  What a property read on the object \<^verbatim>\<open>this._.tasks\<close> can give, and what an event can
  carry: \<^verbatim>\<open>undefined\<close>, \<^verbatim>\<open>null\<close>, a task, or a property that the object inherits from
  \<^verbatim>\<open>Object.prototype\<close>, under its name. The last two are truthy.
\<close>

datatype jsvalue = Undefined | Null | TaskObject task | Builtin string

fun truthy :: "jsvalue \<Rightarrow> bool" where
  "truthy Undefined = False"
| "truthy Null = False"
| "truthy (TaskObject t) = True"
| "truthy (Builtin nm) = True"

type_synonym event = "event_type \<times> jsvalue"

record timer_options =
  interval :: number
  stopOnCompleted :: bool

text \<open>
  \<open>tasks\<close> holds the own properties of the object \<^verbatim>\<open>{ [k: string]: Task }\<close>, as a list of
  key and task to which a new key is appended. It is the order in which \<^verbatim>\<open>for ... in\<close>
  visits the keys, except that JavaScript visits keys that are array indices first; the
  order decides the order of the events of a tick and nothing that is stated below.
  The object is made by the literal \<^verbatim>\<open>{}\<close>, so it inherits from \<^verbatim>\<open>Object.prototype\<close>;
  \<open>tasks_proto\<close> says that it still does.
  \<open>timer\<close> is \<^verbatim>\<open>this._timer\<close>: \<open>None\<close> for \<^verbatim>\<open>null\<close>, and otherwise the period that
  \<^verbatim>\<open>setInterval\<close> was given. \<open>emitted\<close> is the log of the events passed to \<^verbatim>\<open>this.emit\<close>.
\<close>

record timer =
  options :: timer_options
  state :: state
  tasks :: "(string \<times> task) list"
  tasks_proto :: bool
  tickCount :: nat
  runCount :: nat
  startTime :: nat
  stopTime :: nat
  completedCount :: int
  timer :: "number option"
  emitted :: "event list"

definition DEFAULT_TIMER_OPTIONS :: timer_options where
  "DEFAULT_TIMER_OPTIONS = \<lparr> interval = Finite 1000, stopOnCompleted = False \<rparr>"

definition priv_emit :: "event_type \<Rightarrow> jsvalue \<Rightarrow> timer \<Rightarrow> timer" where
  "priv_emit type data tm = tm\<lparr>emitted := emitted tm @ [(type, data)]\<rparr>"

definition priv_stop :: "timer \<Rightarrow> timer" where
  "priv_stop tm = (if timer tm \<noteq> None then tm\<lparr>timer := None\<rparr> else tm)"

definition priv_reset :: "timer \<Rightarrow> timer" where
  "priv_reset tm =
     (let tm = priv_stop tm
      in tm\<lparr> options := options tm, state := IDLE, tasks := [], tasks_proto := True,
              tickCount := 0, runCount := 0, startTime := 0, stopTime := 0,
              completedCount := 0 \<rparr>)"

datatype ctor_arg = NoArg | IntervalArg number | OptionsArg "number option" "bool option"

definition TaskTimer :: "ctor_arg \<Rightarrow> timer" where
  "TaskTimer arg =
     \<lparr> options =
         (case arg of
            NoArg \<Rightarrow> DEFAULT_TIMER_OPTIONS
          | IntervalArg n \<Rightarrow> DEFAULT_TIMER_OPTIONS\<lparr>interval := n\<rparr>
          | OptionsArg i s \<Rightarrow>
              \<lparr> interval = (case i of None \<Rightarrow> interval DEFAULT_TIMER_OPTIONS | Some n \<Rightarrow> n),
                stopOnCompleted =
                  (case s of None \<Rightarrow> stopOnCompleted DEFAULT_TIMER_OPTIONS | Some b \<Rightarrow> b) \<rparr>),
       state = IDLE, tasks = [], tasks_proto = True, tickCount = 0, runCount = 0,
       startTime = 0, stopTime = 0, completedCount = 0, timer = None, emitted = [] \<rparr>"

definition set_interval :: "number \<Rightarrow> timer \<Rightarrow> timer" where
  "set_interval v tm =
     tm\<lparr>options := (options tm)
          \<lparr>interval := (if falsy v then interval DEFAULT_TIMER_OPTIONS else v)\<rparr>\<rparr>"

definition set_stopOnCompleted :: "bool \<Rightarrow> timer \<Rightarrow> timer" where
  "set_stopOnCompleted v tm = tm\<lparr>options := (options tm)\<lparr>stopOnCompleted := v\<rparr>\<rparr>"

definition taskCount :: "timer \<Rightarrow> nat" where
  "taskCount tm = length (tasks tm)"

text \<open>
  The properties of \<^verbatim>\<open>Object.prototype\<close>. Each is a function, except \<^verbatim>\<open>__proto__\<close>, an
  accessor that reads as the prototype object; all of them are truthy.
\<close>

definition Object_prototype :: "string list" where
  "Object_prototype =
     [''constructor'', ''hasOwnProperty'', ''isPrototypeOf'', ''propertyIsEnumerable'',
      ''toLocaleString'', ''toString'', ''valueOf'', ''__proto__'', ''__defineGetter__'',
      ''__defineSetter__'', ''__lookupGetter__'', ''__lookupSetter__'']"

text \<open>
  \<open>registered tm nm\<close> is the task registered under the name \<open>nm\<close>, an own property.
  \<open>tasks_at tm nm\<close> is the read \<^verbatim>\<open>this._.tasks[nm]\<close>, which finds an own property first and
  an inherited one otherwise. \<open>get\<close> is the method: \<^verbatim>\<open>this._.tasks[name] || null\<close>.
\<close>

definition registered :: "timer \<Rightarrow> string \<Rightarrow> task option" where
  "registered tm nm = map_of (tasks tm) nm"

definition tasks_at :: "timer \<Rightarrow> string \<Rightarrow> jsvalue" where
  "tasks_at tm nm =
     (case registered tm nm of
        Some t \<Rightarrow> TaskObject t
      | None \<Rightarrow> if tasks_proto tm \<and> nm \<in> set Object_prototype then Builtin nm else Undefined)"

definition get :: "timer \<Rightarrow> string \<Rightarrow> jsvalue" where
  "get tm nm = (if truthy (tasks_at tm nm) then tasks_at tm nm else Null)"

subsection \<open>Naming a task\<close>

text \<open>
  \<^verbatim>\<open>'task-' + num\<close> writes the integer \<^verbatim>\<open>num\<close> in decimal. \<open>digit_char\<close> is only applied
  to numbers below 10.
\<close>

definition digit_char :: "nat \<Rightarrow> char" where
  "digit_char d = ''0123456789'' ! d"

fun string_of_nat :: "nat \<Rightarrow> string" where
  "string_of_nat n =
     (if n < 10 then [digit_char n] else string_of_nat (n div 10) @ [digit_char (n mod 10)])"

declare string_of_nat.simps [simp del]

definition task_name :: "nat \<Rightarrow> string" where
  "task_name num = ''task-'' @ string_of_nat num"

lemma digit_char_inj: "a < 10 \<Longrightarrow> b < 10 \<Longrightarrow> digit_char a = digit_char b \<Longrightarrow> a = b"
  unfolding digit_char_def
  by (subst (asm) nth_eq_iff_index_eq) simp_all

lemma string_of_nat_nonempty: "string_of_nat n \<noteq> []"
  by (subst string_of_nat.simps) simp

lemma string_of_nat_inj: "string_of_nat m = string_of_nat n \<Longrightarrow> m = n"
proof (induction m arbitrary: n rule: string_of_nat.induct)
  case (1 m)
  show ?case
  proof (cases "m < 10")
    case small: True
    show ?thesis
    proof (cases "n < 10")
      case True
      with small "1.prems" show ?thesis
        by (simp add: string_of_nat.simps [of m] string_of_nat.simps [of n] digit_char_inj)
    next
      case False
      with small "1.prems" show ?thesis
        using string_of_nat_nonempty [of "n div 10"]
        by (simp add: string_of_nat.simps [of m] string_of_nat.simps [of n])
    qed
  next
    case big: False
    show ?thesis
    proof (cases "n < 10")
      case True
      with big "1.prems" show ?thesis
        using string_of_nat_nonempty [of "m div 10"]
        by (simp add: string_of_nat.simps [of m] string_of_nat.simps [of n])
    next
      case False
      with big "1.prems" have "string_of_nat (m div 10) = string_of_nat (n div 10)"
        and d: "digit_char (m mod 10) = digit_char (n mod 10)"
        by (simp_all add: string_of_nat.simps [of m] string_of_nat.simps [of n])
      with big "1.IH" have "m div 10 = n div 10" by blast
      moreover from d have "m mod 10 = n mod 10"
        by (intro digit_char_inj) simp_all
      ultimately show ?thesis
        by (metis div_mult_mod_eq)
    qed
  qed
qed

lemma task_name_inj: "inj task_name"
  by (rule injI) (simp add: task_name_def string_of_nat_inj)

text \<open>
  \<^verbatim>\<open>_getNewTaskName\<close>: the loop \<^verbatim>\<open>while (!name || this.get(name)) { num++; name = 'task-' + num; }\<close>
  runs its body once and then again for as long as \<open>get\<close> finds something under the
  name. That happens for finitely many names and \<open>task_name\<close> is injective, so the loop
  ends.
\<close>

function priv_getNewTaskName_loop :: "timer \<Rightarrow> nat \<Rightarrow> string" where
  "priv_getNewTaskName_loop tm num =
     (if truthy (get tm (task_name (num + 1)))
      then priv_getNewTaskName_loop tm (num + 1)
      else task_name (num + 1))"
  by pat_completeness auto

termination
proof (relation "measure (\<lambda>(tm, num). card {k. num < k \<and> truthy (get tm (task_name k))})")
  show "wf (measure (\<lambda>(tm, num). card {k. num < k \<and> truthy (get tm (task_name k))}))"
    by simp
next
  fix tm :: timer and num :: nat
  let ?S = "\<lambda>n. {k. n < k \<and> truthy (get tm (task_name k))}"
  assume taken: "truthy (get tm (task_name (num + 1)))"
  have "nm \<in> fst ` set (tasks tm) \<union> set Object_prototype" if "truthy (get tm nm)" for nm
  proof (cases "map_of (tasks tm) nm")
    case None
    with that show ?thesis
      by (auto simp: get_def tasks_at_def registered_def split: if_splits)
  next
    case (Some t)
    then have "nm \<in> fst ` set (tasks tm)"
      by (metis map_of_eq_None_iff option.distinct(1))
    then show ?thesis by simp
  qed
  then have "?S num \<subseteq> task_name -` (fst ` set (tasks tm) \<union> set Object_prototype)"
    by blast
  moreover have "finite (task_name -` (fst ` set (tasks tm) \<union> set Object_prototype))"
    by (rule finite_vimageI) (simp_all add: task_name_inj)
  ultimately have fin: "finite (?S num)"
    by (rule finite_subset)
  from taken have "?S (num + 1) \<subset> ?S num"
    by auto
  with fin have "card (?S (num + 1)) < card (?S num)"
    by (rule psubset_card_mono)
  then show "((tm, num + 1), (tm, num))
      \<in> measure (\<lambda>(tm, num). card {k. num < k \<and> truthy (get tm (task_name k))})"
    by simp
qed

declare priv_getNewTaskName_loop.simps [simp del]

definition priv_getNewTaskName :: "timer \<Rightarrow> string" where
  "priv_getNewTaskName tm = priv_getNewTaskName_loop tm (taskCount tm)"

subsection \<open>Adding and removing tasks\<close>

text \<open>
  What \<^verbatim>\<open>_add\<close> accepts: a callback, an options object, or a \<^verbatim>\<open>Task\<close> instance.
  \<open>arg_name\<close> reads \<^verbatim>\<open>options.name\<close> and \<open>set_arg_name\<close> assigns it; a name is falsy when it
  is absent or the empty string.
\<close>

datatype add_arg = OfCallback callback | OfOptions task_options | OfTask task

definition no_options :: task_options where
  "no_options = \<lparr> opt_name = None, opt_tickInterval = None, opt_totalRuns = None,
                  opt_stopDate = None, opt_enabled = None, opt_callback = None \<rparr>"

fun arg_name :: "add_arg \<Rightarrow> string option" where
  "arg_name (OfCallback cb) = None"
| "arg_name (OfOptions opts) = opt_name opts"
| "arg_name (OfTask t) = Some (name t)"

fun set_arg_name :: "string \<Rightarrow> add_arg \<Rightarrow> add_arg" where
  "set_arg_name n (OfCallback cb) = OfCallback cb"
| "set_arg_name n (OfOptions opts) = OfOptions (opts\<lparr>opt_name := Some n\<rparr>)"
| "set_arg_name n (OfTask t) = OfTask (t\<lparr>name := n\<rparr>)"

definition falsy_name :: "string option \<Rightarrow> bool" where
  "falsy_name n = (n = None \<or> n = Some [])"

text \<open>
  The first two statements of \<^verbatim>\<open>_add\<close>: a function is wrapped into an options object, and
  an object without a name is given a generated one. \<open>resolved_name\<close> is \<^verbatim>\<open>options.name\<close>
  after them.
\<close>

definition resolve :: "timer \<Rightarrow> add_arg \<Rightarrow> add_arg" where
  "resolve tm arg =
     (let opts = (case arg of
                    OfCallback cb \<Rightarrow> OfOptions (no_options\<lparr>opt_callback := Some cb\<rparr>)
                  | _ \<Rightarrow> arg)
      in if falsy_name (arg_name opts) then set_arg_name (priv_getNewTaskName tm) opts
         else opts)"

definition resolved_name :: "timer \<Rightarrow> add_arg \<Rightarrow> string" where
  "resolved_name tm arg = (case arg_name (resolve tm arg) of None \<Rightarrow> [] | Some n \<Rightarrow> n)"

definition priv_add :: "timer \<Rightarrow> add_arg \<Rightarrow> error \<times> timer + timer" where
  "priv_add tm arg =
     (let opts = resolve tm arg;
          nm = resolved_name tm arg
      in if truthy (get tm nm) then Inl (NamingConflict nm, tm)
         else
           case (case opts of
                   OfTask t \<Rightarrow> Inr t
                 | OfOptions os \<Rightarrow> new_Task os
                 | OfCallback cb \<Rightarrow> Inl ConfigurationError) of
             Inl e \<Rightarrow> Inl (e, tm)
           | Inr task \<Rightarrow>
               Inr (priv_emit TaskAdded (TaskObject task)
                      (tm\<lparr>tasks := AList.update (name task) task (tasks tm)\<rparr>)))"

datatype add_input = One add_arg | Many "add_arg list"

fun ensureArray :: "add_input \<Rightarrow> add_arg list" where
  "ensureArray (One a) = [a]"
| "ensureArray (Many as) = as"

fun add_each :: "timer \<Rightarrow> add_arg list \<Rightarrow> error \<times> timer + timer" where
  "add_each tm [] = Inr tm"
| "add_each tm (item # list) =
     (case priv_add tm item of Inl e \<Rightarrow> Inl e | Inr tm' \<Rightarrow> add_each tm' list)"

definition add :: "timer \<Rightarrow> add_input \<Rightarrow> error \<times> timer + timer" where
  "add tm task = add_each tm (ensureArray task)"

datatype remove_arg = ByName string | ByTask task

fun remove_name :: "remove_arg \<Rightarrow> string" where
  "remove_name (ByName s) = s"
| "remove_name (ByTask t) = name t"

text \<open>
  \<open>completed_of\<close> is the read \<^verbatim>\<open>task.completed\<close>, taken as a condition: an inherited
  function has no such property. \<open>assign_null_delete\<close> is the pair of statements
  \<^verbatim>\<open>this._.tasks[name] = null; delete this._.tasks[name];\<close>. It deletes an own property.
  Where there is none it creates one and deletes it again, except under the name
  \<^verbatim>\<open>__proto__\<close>, where the assignment goes to the inherited setter and cuts the object off
  from \<^verbatim>\<open>Object.prototype\<close>.
\<close>

fun completed_of :: "jsvalue \<Rightarrow> bool" where
  "completed_of (TaskObject t) = completed t"
| "completed_of _ = False"

definition assign_null_delete :: "string \<Rightarrow> timer \<Rightarrow> timer" where
  "assign_null_delete nm tm =
     tm\<lparr> tasks := AList.delete nm (tasks tm),
         tasks_proto := (if registered tm nm = None \<and> nm = ''__proto__'' then False
                         else tasks_proto tm) \<rparr>"

definition remove :: "timer \<Rightarrow> remove_arg \<Rightarrow> error \<times> timer + timer" where
  "remove tm arg =
     (let nm = remove_name arg;
          task = get tm nm
      in if nm = [] \<or> \<not> truthy task then Inl (NotFound nm, tm)
         else
           let tm = (if completed_of task \<and> 0 < completedCount tm
                     then tm\<lparr>completedCount := completedCount tm - 1\<rparr> else tm);
               tm = assign_null_delete nm tm
           in Inr (priv_emit TaskRemoved task tm))"

subsection \<open>The life cycle\<close>

definition priv_run :: "timer \<Rightarrow> timer" where
  "priv_run tm = tm\<lparr>timer := Some (interval (options tm))\<rparr>"

definition start :: "nat \<Rightarrow> timer \<Rightarrow> timer" where
  "start now tm =
     (let tm = priv_stop tm;
          tm = tm\<lparr>startTime := now, stopTime := 0, tickCount := 0, runCount := 0\<rparr>;
          tm = priv_run tm;
          tm = tm\<lparr>state := RUNNING\<rparr>
      in priv_emit Started Undefined tm)"

definition pause :: "timer \<Rightarrow> timer" where
  "pause tm =
     (if state tm \<noteq> RUNNING then tm
      else priv_emit Paused Undefined ((priv_stop tm)\<lparr>state := PAUSED\<rparr>))"

definition resume :: "timer \<Rightarrow> timer" where
  "resume tm =
     (if state tm \<noteq> PAUSED then tm
      else priv_emit Resumed Undefined ((priv_run tm)\<lparr>state := RUNNING\<rparr>))"

definition stop :: "nat \<Rightarrow> timer \<Rightarrow> timer" where
  "stop now tm =
     (if state tm \<noteq> RUNNING then tm
      else priv_emit Stopped Undefined ((priv_stop tm)\<lparr>stopTime := now, state := STOPPED\<rparr>))"

definition reset :: "timer \<Rightarrow> timer" where
  "reset tm = priv_emit Reset Undefined (priv_reset tm)"

subsection \<open>The tick\<close>

text \<open>
  \<^verbatim>\<open>this.tickCount % task.tickInterval === 0\<close>: the remainder by zero is \<^verbatim>\<open>NaN\<close>, which is
  not equal to 0.
\<close>

definition tick_due :: "nat \<Rightarrow> nat \<Rightarrow> bool" where
  "tick_due count every = (every \<noteq> 0 \<and> count mod every = 0)"

text \<open>
  \<open>onRun\<close> is the arrow function that \<^verbatim>\<open>_tick\<close> passes to \<^verbatim>\<open>task._run\<close>; \<open>task\<close> is the task
  after its run.
\<close>

definition onRun :: "nat \<Rightarrow> task \<Rightarrow> timer \<Rightarrow> timer" where
  "onRun now task tm =
     (let tm = tm\<lparr>runCount := runCount tm + 1\<rparr>;
          tm = priv_emit Task (TaskObject task) tm;
          tm = (if completed task
                then priv_emit TaskCompleted (TaskObject task)
                       (tm\<lparr>completedCount := completedCount tm + 1\<rparr>)
                else tm)
      in if completedCount tm = int (taskCount tm)
         then let tm = priv_emit Completed Undefined tm
              in if stopOnCompleted (options tm) then stop now tm else tm
         else tm)"

text \<open>
  The loop \<^verbatim>\<open>for (name in tasks)\<close> visits the keys that the object has when the loop starts.
  What it reads under a key is a task; anything else is skipped, by \<^verbatim>\<open>if (!task) continue\<close>
  or because the remainder by a tick interval that is \<^verbatim>\<open>undefined\<close> is \<^verbatim>\<open>NaN\<close>. A run changes
  the task object in place, which here replaces the entry under its key.
\<close>

fun tick_loop :: "nat \<Rightarrow> string list \<Rightarrow> timer \<Rightarrow> timer" where
  "tick_loop now [] tm = tm"
| "tick_loop now (nm # names) tm =
     (case tasks_at tm nm of
        TaskObject task \<Rightarrow>
          if tick_due (tickCount tm) (tickInterval task)
          then (case Task_run now task of
                  None \<Rightarrow> tick_loop now names tm
                | Some task' \<Rightarrow>
                    tick_loop now names
                      (onRun now task' (tm\<lparr>tasks := AList.update nm task' (tasks tm)\<rparr>)))
          else tick_loop now names tm
      | _ \<Rightarrow> tick_loop now names tm)"

definition priv_tick :: "nat \<Rightarrow> timer \<Rightarrow> timer" where
  "priv_tick now tm =
     (let tm = tick_loop now (map fst (tasks tm)) tm;
          tm = tm\<lparr>tickCount := tickCount tm + 1\<rparr>
      in priv_emit Tick Undefined tm)"

text \<open>
  \<open>interval_handler\<close> is the arrow function that \<^verbatim>\<open>_run\<close> gives to \<^verbatim>\<open>setInterval\<close>.
  \<open>clock_wakeup\<close> is the clock: it calls the handler when an interval is set, and does
  nothing after \<^verbatim>\<open>clearInterval\<close>.
\<close>

definition interval_handler :: "nat \<Rightarrow> timer \<Rightarrow> timer" where
  "interval_handler now tm = (priv_tick now tm)\<lparr>state := RUNNING\<rparr>"

definition clock_wakeup :: "nat \<Rightarrow> timer \<Rightarrow> timer" where
  "clock_wakeup now tm = (if timer tm = None then tm else interval_handler now tm)"

subsection \<open>Reading a result\<close>

text \<open>
  \<open>after\<close> is the scheduler once a call has returned or thrown. \<open>fired type tm\<close> counts the
  events of one type in the log. \<open>completed_tasks\<close> counts the registered tasks whose
  \<open>completed\<close> flag is set, \<open>all_completed\<close> says that every registered task has it set, and
  \<open>counted\<close> says that the keys of the registry are distinct, as the keys of an object are,
  and that \<open>completedCount\<close> is that number.
\<close>

fun after :: "error \<times> timer + timer \<Rightarrow> timer" where
  "after (Inl (e, tm)) = tm"
| "after (Inr tm) = tm"

definition all_completed :: "timer \<Rightarrow> bool" where
  "all_completed tm = list_all (\<lambda>(nm, t). completed t) (tasks tm)"

definition completed_tasks :: "timer \<Rightarrow> nat" where
  "completed_tasks tm = length (filter (\<lambda>(nm, t). completed t) (tasks tm))"

definition fired :: "event_type \<Rightarrow> timer \<Rightarrow> nat" where
  "fired type tm = count_list (map fst (emitted tm)) type"

definition counted :: "timer \<Rightarrow> bool" where
  "counted tm =
     (distinct (map fst (tasks tm)) \<and> completedCount tm = int (completed_tasks tm))"

text \<open>
  \<open>after_pass now count t\<close> is the task \<open>t\<close> after a tick pass at tick number \<open>count\<close>.
  A task executes in a pass when the pass adds one to its \<open>currentRuns\<close>, the counter of its
  executions.
\<close>

definition after_pass :: "nat \<Rightarrow> nat \<Rightarrow> task \<Rightarrow> task" where
  "after_pass now count t =
     (if tick_due count (tickInterval t)
      then (case Task_run now t of None \<Rightarrow> t | Some t' \<Rightarrow> t')
      else t)"

definition executes :: "nat \<Rightarrow> timer \<Rightarrow> string \<Rightarrow> bool" where
  "executes now tm nm =
     (case (registered tm nm, registered (priv_tick now tm) nm) of
        (Some t, Some t') \<Rightarrow> currentRuns t' = currentRuns t + 1
      | _ \<Rightarrow> False)"

text \<open>
  What \<open>add\<close> is given is not completed, unless it is a completed \<open>Task\<close> instance.
\<close>

fun not_completed_arg :: "add_arg \<Rightarrow> bool" where
  "not_completed_arg (OfTask t) = (\<not> completed t)"
| "not_completed_arg _ = True"

subsection \<open>A listener of the task event\<close>







subsection \<open>Example runs\<close>

text \<open>
  \<open>once nm\<close> are the options of a task named \<open>nm\<close> that is due on every tick and runs once
  in all; \<open>forever nm\<close> has no limit. The schedulers below are reached from a new scheduler
  through the public methods and the clock: \<open>solo\<close> holds the task \<open>a\<close> that runs once and
  has \<open>stopOnCompleted\<close> set; \<open>pair\<close> holds \<open>a\<close> and a task \<open>b\<close> without a limit; \<open>foo\<close> holds
  one task with the name \<open>foo\<close>. In \<open>pair_swapped\<close> the completed task \<open>a\<close> has been removed
  and added again, and \<open>b\<close> has given way to a task \<open>c\<close> that runs once.
\<close>

definition once :: "string \<Rightarrow> task_options" where
  "once nm = no_options\<lparr>opt_name := Some nm, opt_totalRuns := Some 1, opt_callback := Some 0\<rparr>"

definition forever :: "string \<Rightarrow> task_options" where
  "forever nm = no_options\<lparr>opt_name := Some nm, opt_callback := Some 0\<rparr>"

definition task_a :: task where
  "task_a = \<lparr> name = ''a'', tickInterval = 1, totalRuns = 1, stopDate = None, currentRuns = 0,
               enabled = True, completed = False, callback = 0 \<rparr>"

definition task_a_done :: task where
  "task_a_done = task_a\<lparr>currentRuns := 1, completed := True\<rparr>"

definition task_b :: task where
  "task_b = \<lparr> name = ''b'', tickInterval = 1, totalRuns = 0, stopDate = None, currentRuns = 0,
               enabled = True, completed = False, callback = 0 \<rparr>"

definition task_b_ran :: task where
  "task_b_ran = task_b\<lparr>currentRuns := 1\<rparr>"

definition solo_added :: timer where
  "solo_added =
     after (add (TaskTimer (OptionsArg None (Some True))) (One (OfOptions (once ''a''))))"

definition solo_started :: timer where
  "solo_started = start 0 solo_added"

definition pair_added :: timer where
  "pair_added =
     after (add (TaskTimer NoArg) (Many [OfOptions (once ''a''), OfOptions (forever ''b'')]))"

definition pair_started :: timer where
  "pair_started = start 0 pair_added"

definition pair_ticked :: timer where
  "pair_ticked = clock_wakeup 1000 pair_started"


definition pair_without_a :: timer where
  "pair_without_a = after (remove pair_ticked (ByTask task_a_done))"

definition pair_readded :: timer where
  "pair_readded = after (add pair_without_a (One (OfTask task_a_done)))"

definition pair_swapped :: timer where
  "pair_swapped =
     after (add (after (remove pair_readded (ByName ''b''))) (One (OfOptions (once ''c''))))"

definition foo_added :: timer where
  "foo_added = after (add (TaskTimer NoArg) (One (OfOptions (forever ''foo''))))"



section \<open>Evaluating the examples\<close>

lemmas eval_defs = TaskTimer_def DEFAULT_TIMER_OPTIONS_def add_def priv_add_def resolve_def
  resolved_name_def falsy_name_def new_Task_def no_options_def once_def forever_def get_def
  priv_emit_def start_def priv_stop_def priv_run_def clock_wakeup_def interval_handler_def
  priv_tick_def onRun_def Task_run_def tick_due_def taskCount_def stop_def remove_def
  pause_def resume_def reset_def priv_reset_def set_interval_def
  priv_getNewTaskName_def priv_getNewTaskName_loop.simps task_name_def string_of_nat.simps
  digit_char_def tasks_at_def registered_def Object_prototype_def
  assign_null_delete_def all_completed_def completed_tasks_def fired_def counted_def executes_def
  Let_def

lemmas task_defs = task_a_def task_a_done_def task_b_def task_b_ran_def

lemma solo_added_value:
  "solo_added =
     \<lparr> options = \<lparr> interval = Finite 1000, stopOnCompleted = True \<rparr>, state = IDLE,
       tasks = [(''a'', task_a)], tasks_proto = True, tickCount = 0, runCount = 0, startTime = 0, stopTime = 0,
       completedCount = 0, timer = None, emitted = [(TaskAdded, TaskObject task_a)] \<rparr>"
  by (simp add: solo_added_def eval_defs task_defs)

lemma solo_started_value:
  "solo_started =
     \<lparr> options = \<lparr> interval = Finite 1000, stopOnCompleted = True \<rparr>, state = RUNNING,
       tasks = [(''a'', task_a)], tasks_proto = True, tickCount = 0, runCount = 0, startTime = 0, stopTime = 0,
       completedCount = 0, timer = Some (Finite 1000),
       emitted = [(TaskAdded, TaskObject task_a), (Started, Undefined)] \<rparr>"
  by (simp add: solo_started_def solo_added_value eval_defs)

lemma solo_tick_value:
  "priv_tick 1000 solo_started =
     \<lparr> options = \<lparr> interval = Finite 1000, stopOnCompleted = True \<rparr>, state = STOPPED,
       tasks = [(''a'', task_a_done)], tasks_proto = True, tickCount = 1, runCount = 1, startTime = 0,
       stopTime = 1000, completedCount = 1, timer = None,
       emitted = [(TaskAdded, TaskObject task_a), (Started, Undefined), (Task, TaskObject task_a_done),
                  (TaskCompleted, TaskObject task_a_done), (Completed, Undefined), (Stopped, Undefined),
                  (Tick, Undefined)] \<rparr>"
  by (simp add: solo_started_value eval_defs task_defs)

lemma pair_added_value:
  "pair_added =
     \<lparr> options = \<lparr> interval = Finite 1000, stopOnCompleted = False \<rparr>, state = IDLE,
       tasks = [(''a'', task_a), (''b'', task_b)], tasks_proto = True, tickCount = 0, runCount = 0, startTime = 0,
       stopTime = 0, completedCount = 0, timer = None,
       emitted = [(TaskAdded, TaskObject task_a), (TaskAdded, TaskObject task_b)] \<rparr>"
  by (simp add: pair_added_def eval_defs task_defs)

lemma pair_started_value:
  "pair_started =
     \<lparr> options = \<lparr> interval = Finite 1000, stopOnCompleted = False \<rparr>, state = RUNNING,
       tasks = [(''a'', task_a), (''b'', task_b)], tasks_proto = True, tickCount = 0, runCount = 0, startTime = 0,
       stopTime = 0, completedCount = 0, timer = Some (Finite 1000),
       emitted = [(TaskAdded, TaskObject task_a), (TaskAdded, TaskObject task_b), (Started, Undefined)] \<rparr>"
  by (simp add: pair_started_def pair_added_value eval_defs)

lemma pair_ticked_value:
  "pair_ticked =
     \<lparr> options = \<lparr> interval = Finite 1000, stopOnCompleted = False \<rparr>, state = RUNNING,
       tasks = [(''a'', task_a_done), (''b'', task_b_ran)], tasks_proto = True, tickCount = 1, runCount = 2,
       startTime = 0, stopTime = 0, completedCount = 1, timer = Some (Finite 1000),
       emitted = [(TaskAdded, TaskObject task_a), (TaskAdded, TaskObject task_b), (Started, Undefined),
                  (Task, TaskObject task_a_done), (TaskCompleted, TaskObject task_a_done),
                  (Task, TaskObject task_b_ran), (Tick, Undefined)] \<rparr>"
  by (simp add: pair_ticked_def pair_started_value eval_defs task_defs)


lemma pair_without_a_value:
  "pair_without_a =
     \<lparr> options = \<lparr> interval = Finite 1000, stopOnCompleted = False \<rparr>, state = RUNNING,
       tasks = [(''b'', task_b_ran)], tasks_proto = True, tickCount = 1, runCount = 2,
       startTime = 0, stopTime = 0, completedCount = 0, timer = Some (Finite 1000),
       emitted = [(TaskAdded, TaskObject task_a), (TaskAdded, TaskObject task_b), (Started, Undefined),
                  (Task, TaskObject task_a_done), (TaskCompleted, TaskObject task_a_done),
                  (Task, TaskObject task_b_ran), (Tick, Undefined), (TaskRemoved, TaskObject task_a_done)] \<rparr>"
  by (simp add: pair_without_a_def pair_ticked_value eval_defs task_defs)

lemma pair_readded_value:
  "pair_readded =
     \<lparr> options = \<lparr> interval = Finite 1000, stopOnCompleted = False \<rparr>, state = RUNNING,
       tasks = [(''b'', task_b_ran), (''a'', task_a_done)], tasks_proto = True, tickCount = 1, runCount = 2,
       startTime = 0, stopTime = 0, completedCount = 0, timer = Some (Finite 1000),
       emitted = [(TaskAdded, TaskObject task_a), (TaskAdded, TaskObject task_b), (Started, Undefined),
                  (Task, TaskObject task_a_done), (TaskCompleted, TaskObject task_a_done),
                  (Task, TaskObject task_b_ran), (Tick, Undefined), (TaskRemoved, TaskObject task_a_done),
                  (TaskAdded, TaskObject task_a_done)] \<rparr>"
  by (simp add: pair_readded_def pair_without_a_value eval_defs task_defs)

lemma pair_swapped_value:
  "pair_swapped =
     \<lparr> options = \<lparr> interval = Finite 1000, stopOnCompleted = False \<rparr>, state = RUNNING,
       tasks = [(''a'', task_a_done), (''c'', task_a\<lparr>name := ''c''\<rparr>)], tasks_proto = True,
       tickCount = 1, runCount = 2, startTime = 0, stopTime = 0, completedCount = 0,
       timer = Some (Finite 1000),
       emitted = emitted pair_readded
                   @ [(TaskRemoved, TaskObject task_b_ran),
                      (TaskAdded, TaskObject (task_a\<lparr>name := ''c''\<rparr>))] \<rparr>"
  by (simp add: pair_swapped_def pair_readded_value eval_defs task_defs)

lemma foo_added_value:
  "foo_added =
     \<lparr> options = \<lparr> interval = Finite 1000, stopOnCompleted = False \<rparr>, state = IDLE,
       tasks = [(''foo'', \<lparr> name = ''foo'', tickInterval = 1, totalRuns = 0, stopDate = None,
                 currentRuns = 0, enabled = True, completed = False, callback = 0 \<rparr>)], tasks_proto = True,
       tickCount = 0, runCount = 0, startTime = 0, stopTime = 0,
       completedCount = 0, timer = None,
       emitted = [(TaskAdded, TaskObject \<lparr> name = ''foo'', tickInterval = 1, totalRuns = 0,
                    stopDate = None, currentRuns = 0, enabled = True, completed = False,
                    callback = 0 \<rparr>)] \<rparr>"
  by (simp add: foo_added_def eval_defs)



section \<open>What a tick pass changes\<close>

lemma tasks_at_TaskObject: "tasks_at tm nm = TaskObject t \<longleftrightarrow> registered tm nm = Some t"
  by (auto simp: tasks_at_def split: option.splits)

lemma registeredD: "registered tm nm = Some t \<Longrightarrow> (nm, t) \<in> set (tasks tm)"
  by (simp add: registered_def map_of_SomeD)

lemma get_registered: "registered tm nm = Some t \<Longrightarrow> get tm nm = TaskObject t"
  by (simp add: get_def tasks_at_def)

lemma tasks_priv_emit [simp]: "tasks (priv_emit ty d tm) = tasks tm"
  by (simp add: priv_emit_def)

lemma tasks_stop [simp]: "tasks (stop now tm) = tasks tm"
  by (simp add: stop_def priv_stop_def)

lemma tasks_onRun [simp]: "tasks (onRun now task tm) = tasks tm"
  by (simp add: onRun_def Let_def)

lemma tickCount_priv_emit [simp]: "tickCount (priv_emit ty d tm) = tickCount tm"
  by (simp add: priv_emit_def)

lemma tickCount_priv_stop [simp]: "tickCount (priv_stop tm) = tickCount tm"
  by (simp add: priv_stop_def)

lemma tickCount_stop [simp]: "tickCount (stop now tm) = tickCount tm"
  by (simp add: stop_def)

lemma tickCount_onRun [simp]: "tickCount (onRun now task tm) = tickCount tm"
  by (simp add: onRun_def Let_def)

lemma tickCount_tick_loop [simp]: "tickCount (tick_loop now names tm) = tickCount tm"
  by (induction names arbitrary: tm) (simp_all split: jsvalue.split option.split)

lemma tickCount_priv_tick: "tickCount (priv_tick now tm) = tickCount tm + 1"
  by (simp add: priv_tick_def Let_def)

lemma completedCount_stop [simp]: "completedCount (stop now tm) = completedCount tm"
  by (simp add: stop_def priv_stop_def priv_emit_def)

lemma completedCount_onRun:
  "completedCount (onRun now task tm) = completedCount tm + (if completed task then 1 else 0)"
  by (simp add: onRun_def Let_def priv_emit_def)

lemma fired_priv_emit:
  "fired ty (priv_emit ty' d tm) = fired ty tm + (if ty' = ty then 1 else 0)"
  by (simp add: fired_def priv_emit_def)

lemma fired_Completed_stop [simp]: "fired Completed (stop now tm) = fired Completed tm"
  by (simp add: stop_def fired_priv_emit) (simp add: fired_def priv_stop_def)

lemma fired_Completed_onRun:
  "fired Completed (onRun now task tm) =
     fired Completed tm
       + (if completedCount tm + (if completed task then 1 else 0) = int (taskCount tm)
          then 1 else 0)"
  by (simp add: onRun_def Let_def fired_priv_emit taskCount_def)
     (simp add: fired_def priv_emit_def)

lemma options_onRun [simp]: "options (onRun now task tm) = options tm"
  by (simp add: onRun_def Let_def stop_def priv_stop_def priv_emit_def)

lemma state_onRun:
  "state (onRun now task tm) =
     (if completedCount tm + (if completed task then 1 else 0) = int (taskCount tm)
         \<and> stopOnCompleted (options tm) \<and> state tm = RUNNING
      then STOPPED else state tm)"
  by (simp add: onRun_def Let_def stop_def priv_stop_def priv_emit_def taskCount_def)

lemma timer_onRun:
  "timer (onRun now task tm) =
     (if completedCount tm + (if completed task then 1 else 0) = int (taskCount tm)
         \<and> stopOnCompleted (options tm) \<and> state tm = RUNNING
      then None else timer tm)"
  by (simp add: onRun_def Let_def stop_def priv_stop_def priv_emit_def taskCount_def)

lemma count_update:
  "distinct (map fst al) \<Longrightarrow> map_of al k = Some v \<Longrightarrow>
   length (filter (\<lambda>(nm, t). P t) (AList.update k v' al)) + (if P v then 1 else 0)
     = length (filter (\<lambda>(nm, t). P t) al) + (if P v' then 1 else 0)"
proof (induction al)
  case Nil
  then show ?case by simp
next
  case (Cons p al)
  then show ?case
    by (cases p) (auto simp: update_triv)
qed

lemma count_fresh:
  "map_of al k = None \<Longrightarrow>
   length (filter (\<lambda>(nm, t). P t) (AList.update k v al))
     = length (filter (\<lambda>(nm, t). P t) al) + (if P v then 1 else 0)"
  by (induction al) (auto split: if_splits)

lemma count_delete:
  "distinct (map fst al) \<Longrightarrow> map_of al k = Some v \<Longrightarrow>
   length (filter (\<lambda>(nm, t). P t) (AList.delete k al)) + (if P v then 1 else 0)
     = length (filter (\<lambda>(nm, t). P t) al)"
proof (induction al)
  case Nil
  then show ?case by simp
next
  case (Cons p al)
  then show ?case
    by (cases p) (auto simp: image_iff)
qed

lemma all_completed_iff: "all_completed tm \<longleftrightarrow> completed_tasks tm = taskCount tm"
proof -
  have "list_all Q xs \<longleftrightarrow> length (filter Q xs) = length xs" for Q :: "'a \<Rightarrow> bool" and xs
    by (metis list_all_iff filter_id_conv length_filter_less less_irrefl)
  then show ?thesis
    by (simp add: all_completed_def completed_tasks_def taskCount_def)
qed

lemma Task_run_SomeD:
  "Task_run now t = Some t' \<Longrightarrow> \<not> completed t \<and> enabled t \<and> currentRuns t' = currentRuns t + 1"
  by (auto simp: Task_run_def Let_def split: if_splits)

text \<open>
  One turn of the loop either skips the key or runs the task registered under it.
\<close>

lemma tick_loop_turn:
  obtains
    (skip) "tick_loop now (nm # names) tm = tick_loop now names tm"
      and "\<And>t. registered tm nm = Some t \<Longrightarrow>
             \<not> tick_due (tickCount tm) (tickInterval t) \<or> Task_run now t = None"
  | (run) t t' where "registered tm nm = Some t"
      and "tick_due (tickCount tm) (tickInterval t)"
      and "Task_run now t = Some t'"
      and "tick_loop now (nm # names) tm =
             tick_loop now names (onRun now t' (tm\<lparr>tasks := AList.update nm t' (tasks tm)\<rparr>))"
proof (cases "tasks_at tm nm")
  case (TaskObject t)
  then have reg: "registered tm nm = Some t"
    by (simp add: tasks_at_TaskObject)
  show ?thesis
  proof (cases "tick_due (tickCount tm) (tickInterval t) \<and> Task_run now t \<noteq> None")
    case True
    then obtain t' where "Task_run now t = Some t'" by auto
    with True TaskObject reg show ?thesis
      by (intro run [of t t']) simp_all
  next
    case False
    with TaskObject reg show ?thesis
      by (intro skip) (auto split: option.split)
  qed
next
  case Undefined
  then have "registered tm nm = None"
    by (simp add: tasks_at_def split: option.splits)
  with Undefined show ?thesis
    by (intro skip) simp_all
next
  case Null
  then have "registered tm nm = None"
    by (simp add: tasks_at_def split: option.splits)
  with Null show ?thesis
    by (intro skip) simp_all
next
  case (Builtin b)
  then have "registered tm nm = None"
    by (simp add: tasks_at_def split: option.splits)
  with Builtin show ?thesis
    by (intro skip) simp_all
qed

lemma all_completed_tick_loop: "all_completed tm \<Longrightarrow> tick_loop now names tm = tm"
proof (induction names)
  case Nil
  show ?case by simp
next
  case (Cons nm names)
  show ?case
  proof (cases rule: tick_loop_turn [of now nm names tm])
    case skip
    with Cons show ?thesis by simp
  next
    case (run t t')
    from run(1) have "(nm, t) \<in> set (tasks tm)"
      by (rule registeredD)
    with Cons.prems have "completed t"
      by (auto simp: all_completed_def list_all_iff)
    with run(3) show ?thesis
      by (simp add: Task_run_SomeD)
  qed
qed

text \<open>One run, followed by its \<open>onRun\<close>.\<close>

lemma run_step:
  assumes c: "counted tm" and g: "registered tm nm = Some t" and r: "Task_run now t = Some t'"
  defines "tm1 \<equiv> onRun now t' (tm\<lparr>tasks := AList.update nm t' (tasks tm)\<rparr>)"
  shows "counted tm1" and "\<not> all_completed tm"
    and "fired Completed tm1 = fired Completed tm + (if all_completed tm1 then 1 else 0)"
proof -
  from c have d: "distinct (map fst (tasks tm))"
    and cc: "completedCount tm = int (completed_tasks tm)"
    by (simp_all add: counted_def)
  from g have m: "map_of (tasks tm) nm = Some t" by (simp add: registered_def)
  from r have nt: "\<not> completed t" by (simp add: Task_run_SomeD)
  from count_update [OF d m, of completed t'] nt
  have cnt: "completed_tasks tm1 = completed_tasks tm + (if completed t' then 1 else 0)"
    by (simp add: completed_tasks_def tm1_def)
  from m have "nm \<in> set (map fst (tasks tm))"
    by (metis map_of_eq_None_iff option.distinct(1) set_map)
  then have keys: "map fst (tasks tm1) = map fst (tasks tm)"
    by (simp add: tm1_def update_keys)
  have "length (map fst (tasks tm1)) = length (map fst (tasks tm))"
    by (simp only: keys)
  then have len: "taskCount tm1 = taskCount tm"
    by (simp add: taskCount_def)
  have cc1: "completedCount tm1 = int (completed_tasks tm1)"
    by (simp add: cnt) (simp add: tm1_def completedCount_onRun cc)
  from d have "distinct (map fst (tasks tm1))"
    by (simp add: tm1_def distinct_update)
  with cc1 show "counted tm1" by (simp add: counted_def)
  from g have "(nm, t) \<in> set (tasks tm)" by (rule registeredD)
  with nt show "\<not> all_completed tm"
    by (auto simp: all_completed_def list_all_iff)
  have "fired Completed tm1 = fired Completed tm
      + (if completedCount tm1 = int (taskCount tm1) then 1 else 0)"
    using len unfolding tm1_def
    by (simp add: fired_Completed_onRun completedCount_onRun taskCount_def) (simp add: fired_def)
  then show "fired Completed tm1 = fired Completed tm + (if all_completed tm1 then 1 else 0)"
    by (simp add: all_completed_iff cc1)
qed

lemma run_step_state:
  assumes c: "counted tm" and g: "registered tm nm = Some t" and r: "Task_run now t = Some t'"
  defines "tm1 \<equiv> onRun now t' (tm\<lparr>tasks := AList.update nm t' (tasks tm)\<rparr>)"
  shows "options tm1 = options tm"
    and "state tm1 =
           (if all_completed tm1 \<and> stopOnCompleted (options tm) \<and> state tm = RUNNING
            then STOPPED else state tm)"
    and "timer tm1 =
           (if all_completed tm1 \<and> stopOnCompleted (options tm) \<and> state tm = RUNNING
            then None else timer tm)"
proof -
  let ?tm0 = "tm\<lparr>tasks := AList.update nm t' (tasks tm)\<rparr>"
  from run_step(1) [OF c g r] have "counted tm1"
    by (simp add: tm1_def)
  then have "all_completed tm1 \<longleftrightarrow> completedCount tm1 = int (taskCount tm1)"
    by (simp add: all_completed_iff counted_def)
  also have "\<dots> \<longleftrightarrow>
      completedCount ?tm0 + (if completed t' then 1 else 0) = int (taskCount ?tm0)"
    by (simp add: tm1_def completedCount_onRun taskCount_def)
  finally have iff: "all_completed tm1 \<longleftrightarrow>
      completedCount ?tm0 + (if completed t' then 1 else 0) = int (taskCount ?tm0)" .
  show "options tm1 = options tm"
    by (simp add: tm1_def)
  show "state tm1 =
           (if all_completed tm1 \<and> stopOnCompleted (options tm) \<and> state tm = RUNNING
            then STOPPED else state tm)"
    unfolding iff by (simp add: tm1_def state_onRun)
  show "timer tm1 =
           (if all_completed tm1 \<and> stopOnCompleted (options tm) \<and> state tm = RUNNING
            then None else timer tm)"
    unfolding iff by (simp add: tm1_def timer_onRun)
qed

text \<open>
  The loop keeps the count right, and it emits the \<open>completed\<close> event at the run that
  completes the last uncompleted task and nowhere else.
\<close>

lemma tick_loop_counted:
  "counted tm \<Longrightarrow>
     counted (tick_loop now names tm)
     \<and> fired Completed (tick_loop now names tm) =
         fired Completed tm
           + (if \<not> all_completed tm \<and> all_completed (tick_loop now names tm) then 1 else 0)"
proof (induction names arbitrary: tm)
  case Nil
  then show ?case by simp
next
  case (Cons nm names)
  show ?case
  proof (cases rule: tick_loop_turn [of now nm names tm])
    case skip
    with Cons.IH [OF Cons.prems] show ?thesis by simp
  next
    case (run t t')
    let ?tm1 = "onRun now t' (tm\<lparr>tasks := AList.update nm t' (tasks tm)\<rparr>)"
    note step = run_step [OF Cons.prems run(1) run(3)]
    show ?thesis
    proof (cases "all_completed ?tm1")
      case True
      then have "tick_loop now names ?tm1 = ?tm1"
        by (rule all_completed_tick_loop)
      with step True show ?thesis
        unfolding run(4) by simp
    next
      case False
      with Cons.IH [OF step(1)] step show ?thesis
        unfolding run(4) by simp
    qed
  qed
qed

text \<open>
  The state and the interval follow the pass: they change at the run that completes the
  last uncompleted task, and nowhere else.
\<close>

lemma tick_loop_auto_stop:
  assumes "counted tm" and "state tm = RUNNING" and "stopOnCompleted (options tm)"
    and "\<not> all_completed tm"
  shows "if all_completed (tick_loop now names tm)
         then state (tick_loop now names tm) = STOPPED \<and> timer (tick_loop now names tm) = None
         else state (tick_loop now names tm) = RUNNING
                \<and> timer (tick_loop now names tm) = timer tm"
  using assms
proof (induction names arbitrary: tm)
  case Nil
  then show ?case by simp
next
  case (Cons nm names)
  show ?case
  proof (cases rule: tick_loop_turn [of now nm names tm])
    case skip
    with Cons.IH [OF Cons.prems] show ?thesis by simp
  next
    case (run t t')
    let ?tm1 = "onRun now t' (tm\<lparr>tasks := AList.update nm t' (tasks tm)\<rparr>)"
    note step = run_step [OF Cons.prems(1) run(1) run(3)]
    note st = run_step_state [OF Cons.prems(1) run(1) run(3)]
    show ?thesis
    proof (cases "all_completed ?tm1")
      case True
      then have "tick_loop now names ?tm1 = ?tm1"
        by (rule all_completed_tick_loop)
      with True st Cons.prems show ?thesis
        unfolding run(4) by simp
    next
      case False
      with st Cons.prems have "state ?tm1 = RUNNING" "stopOnCompleted (options ?tm1)"
        "timer ?tm1 = timer tm"
        by simp_all
      with Cons.IH [OF step(1) _ _ False] show ?thesis
        unfolding run(4) by simp
    qed
  qed
qed

text \<open>The registry after the loop, task by task.\<close>

lemma registered_tick_loop:
  "distinct names \<Longrightarrow>
   registered (tick_loop now names tm) nm =
     (if nm \<in> set names then map_option (after_pass now (tickCount tm)) (registered tm nm)
      else registered tm nm)"
proof (induction names arbitrary: tm)
  case Nil
  show ?case by simp
next
  case (Cons n names)
  then have fresh: "n \<notin> set names" and d: "distinct names"
    by simp_all
  show ?case
  proof (cases rule: tick_loop_turn [of now n names tm])
    case skip
    have "map_option (after_pass now (tickCount tm)) (registered tm n) = registered tm n"
    proof (cases "registered tm n")
      case None
      then show ?thesis by simp
    next
      case (Some t)
      with skip(2) [OF Some] show ?thesis
        by (auto simp: after_pass_def)
    qed
    with Cons.IH [OF d, of tm] fresh show ?thesis
      unfolding skip(1) by auto
  next
    case (run t t')
    let ?tm1 = "onRun now t' (tm\<lparr>tasks := AList.update n t' (tasks tm)\<rparr>)"
    have g1: "registered ?tm1 x = (if x = n then Some t' else registered tm x)" for x
      by (simp add: registered_def update_conv)
    from run have ap: "after_pass now (tickCount tm) t = t'"
      by (simp add: after_pass_def)
    show ?thesis
      unfolding run(4) using Cons.IH [OF d, of ?tm1] run(1) fresh ap
      by (auto simp: g1)
  qed
qed

lemma registered_priv_tick:
  assumes "distinct (map fst (tasks tm))"
  shows "registered (priv_tick now tm) nm =
           map_option (after_pass now (tickCount tm)) (registered tm nm)"
proof -
  have "registered (priv_tick now tm) nm = registered (tick_loop now (map fst (tasks tm)) tm) nm"
    by (simp add: priv_tick_def Let_def registered_def)
  also have "\<dots> = (if nm \<in> set (map fst (tasks tm))
        then map_option (after_pass now (tickCount tm)) (registered tm nm)
        else registered tm nm)"
    using assms by (rule registered_tick_loop)
  also have "\<dots> = map_option (after_pass now (tickCount tm)) (registered tm nm)"
  proof (cases "nm \<in> set (map fst (tasks tm))")
    case True
    then show ?thesis by simp
  next
    case False
    then have "registered tm nm = None"
      by (simp add: registered_def map_of_eq_None_iff)
    then show ?thesis by simp
  qed
  finally show ?thesis .
qed


section \<open>What add registers\<close>

lemma resolve_OfTaskD:
  "resolve tm arg = OfTask t \<Longrightarrow> \<exists>t0. arg = OfTask t0 \<and> completed t = completed t0"
  by (cases arg) (auto simp: resolve_def Let_def split: if_splits)

lemma not_truthy_get: "\<not> truthy (get tm nm) \<Longrightarrow> registered tm nm = None"
  by (auto simp: get_def tasks_at_def split: option.splits if_splits)

lemma priv_add_InrD:
  assumes "priv_add tm arg = Inr tm'"
  shows "\<exists>task. registered tm (name task) = None
           \<and> name task = resolved_name tm arg
           \<and> tm' = priv_emit TaskAdded (TaskObject task)
                     (tm\<lparr>tasks := AList.update (name task) task (tasks tm)\<rparr>)
           \<and> (not_completed_arg arg \<longrightarrow> \<not> completed task)"
proof (cases "resolve tm arg")
  case (OfCallback cb)
  with assms show ?thesis
    by (simp add: priv_add_def Let_def split: if_splits)
next
  case (OfOptions os)
  with assms obtain task where nt: "new_Task os = Inr task"
    and free: "\<not> truthy (get tm (resolved_name tm arg))"
    and tm': "tm' = priv_emit TaskAdded (TaskObject task)
                     (tm\<lparr>tasks := AList.update (name task) task (tasks tm)\<rparr>)"
    by (auto simp: priv_add_def Let_def split: if_splits sum.splits)
  from nt have "name task = (case opt_name os of None \<Rightarrow> [] | Some n \<Rightarrow> n)"
    and nc: "\<not> completed task"
    by (auto simp: new_Task_def split: option.splits)
  with OfOptions have nm: "name task = resolved_name tm arg"
    by (simp add: resolved_name_def)
  with free have "registered tm (name task) = None"
    by (simp add: not_truthy_get)
  with tm' nc nm show ?thesis by blast
next
  case (OfTask t)
  from resolve_OfTaskD [OF this] obtain t0 where t0: "arg = OfTask t0" "completed t = completed t0"
    by blast
  from OfTask have nm: "name t = resolved_name tm arg"
    by (simp add: resolved_name_def)
  from OfTask assms have free: "\<not> truthy (get tm (resolved_name tm arg))"
    and tm': "tm' = priv_emit TaskAdded (TaskObject t)
                     (tm\<lparr>tasks := AList.update (name t) t (tasks tm)\<rparr>)"
    by (auto simp: priv_add_def Let_def split: if_splits)
  from free nm have "registered tm (name t) = None"
    by (simp add: not_truthy_get)
  with tm' nm t0 show ?thesis
    by (intro exI [of _ t]) simp
qed

lemma priv_add_InlD: "priv_add tm arg = Inl (e, tm') \<Longrightarrow> tm' = tm"
  by (auto simp: priv_add_def Let_def split: if_splits sum.splits)

section \<open>Stopping when every task is completed\<close>

text \<open>
  C1, at one run. The scheduler \<open>solo_started\<close> runs with \<open>stopOnCompleted\<close> set, and its
  only task completes in the first tick. When \<^verbatim>\<open>_tick\<close> returns, the state is stopped; the
  interval handler then assigns the state again, so when the wakeup ends the state is
  running. The interval is cleared: a later wakeup of the clock changes nothing.
\<close>

theorem auto_stop_state:
  "stopOnCompleted (options solo_started)
   \<and> state solo_started = RUNNING
   \<and> timer solo_started = Some (Finite 1000)
   \<and> \<not> all_completed solo_started
   \<and> all_completed (priv_tick 1000 solo_started)
   \<and> state (priv_tick 1000 solo_started) = STOPPED
   \<and> state (clock_wakeup 1000 solo_started) = RUNNING
   \<and> timer (clock_wakeup 1000 solo_started) = None
   \<and> clock_wakeup 2000 (clock_wakeup 1000 solo_started) = clock_wakeup 1000 solo_started"
  by (simp add: clock_wakeup_def interval_handler_def solo_tick_value)
     (simp add: solo_started_value all_completed_def task_defs)

text \<open>
  The same in every run: when the scheduler runs with \<open>stopOnCompleted\<close> set and a tick
  pass completes the last uncompleted task, \<^verbatim>\<open>_tick\<close> returns in the stopped state with the
  interval cleared, and the interval handler leaves the state running.
\<close>

lemma auto_stop_in_general:
  assumes "counted tm" and "state tm = RUNNING" and "stopOnCompleted (options tm)"
    and "\<not> all_completed tm" and "all_completed (priv_tick now tm)"
  shows "state (priv_tick now tm) = STOPPED"
    and "timer (priv_tick now tm) = None"
    and "state (interval_handler now tm) = RUNNING"
    and "timer (interval_handler now tm) = None"
    and "clock_wakeup now' (interval_handler now tm) = interval_handler now tm"
proof -
  let ?tm' = "tick_loop now (map fst (tasks tm)) tm"
  from assms(5) have "all_completed ?tm'"
    by (simp add: priv_tick_def Let_def all_completed_def)
  with tick_loop_auto_stop [OF assms(1-4), of now "map fst (tasks tm)"]
  have "state ?tm' = STOPPED" "timer ?tm' = None"
    by simp_all
  then show "state (priv_tick now tm) = STOPPED" and t: "timer (priv_tick now tm) = None"
    by (simp_all add: priv_tick_def Let_def priv_emit_def)
  show "state (interval_handler now tm) = RUNNING"
    by (simp add: interval_handler_def)
  from t show t': "timer (interval_handler now tm) = None"
    by (simp add: interval_handler_def)
  from t' show "clock_wakeup now' (interval_handler now tm) = interval_handler now tm"
    by (simp add: clock_wakeup_def)
qed

section \<open>The aggregate completed event\<close>













text \<open>
  Why the count has to be right at the start of the pass. In \<open>pair_swapped\<close> the task \<open>a\<close> is
  completed and not counted. The next tick completes \<open>c\<close>, the last uncompleted task, and
  emits no \<open>completed\<close> event, because \<open>completedCount\<close> becomes 1 and the task count is 2.
\<close>

lemma completed_event_after_readd:
  "\<not> counted pair_swapped
   \<and> \<not> all_completed pair_swapped
   \<and> all_completed (priv_tick 2000 pair_swapped)
   \<and> fired Completed (priv_tick 2000 pair_swapped) = fired Completed pair_swapped"
  by (simp add: pair_swapped_value pair_readded_value eval_defs task_defs)

section \<open>The count of completed tasks\<close>

text \<open>
  C3, at one run. In \<open>pair_ticked\<close> the task \<open>a\<close> is completed and counted. The caller takes
  the task with \<open>get\<close>, removes it, which takes it out of the count, and adds the same task
  again. \<open>add\<close> registers the completed task and leaves \<open>completedCount\<close> at 0, while one
  registered task is completed.
\<close>

theorem readd_completed_task:
  "get pair_ticked ''a'' = TaskObject task_a_done
   \<and> completedCount pair_ticked = int (completed_tasks pair_ticked)
   \<and> completedCount pair_without_a = int (completed_tasks pair_without_a)
   \<and> completedCount pair_readded = 0
   \<and> completed_tasks pair_readded = 1"
  by (simp add: pair_ticked_value pair_without_a_value pair_readded_value
      get_def tasks_at_def registered_def completed_tasks_def task_defs)

text \<open>
  Everything else keeps the count right: a new scheduler, the life cycle, \<open>remove\<close>, the
  tick pass, and \<open>add\<close> of anything but a completed \<open>Task\<close> instance.
\<close>

lemma counted_TaskTimer: "counted (TaskTimer arg)"
  by (simp add: counted_def completed_tasks_def TaskTimer_def)

lemma counted_lifecycle:
  "counted tm \<Longrightarrow> counted (start now tm)"
  "counted tm \<Longrightarrow> counted (pause tm)"
  "counted tm \<Longrightarrow> counted (resume tm)"
  "counted tm \<Longrightarrow> counted (stop now tm)"
  "counted (reset tm)"
  by (simp_all add: counted_def completed_tasks_def start_def pause_def resume_def stop_def
      reset_def priv_reset_def priv_stop_def priv_run_def priv_emit_def Let_def)

lemma not_registered_get:
  assumes "registered tm nm = None"
  shows "\<not> completed_of (get tm nm)" and "AList.delete nm (tasks tm) = tasks tm"
proof -
  note r = assms
  then show "\<not> completed_of (get tm nm)"
    by (simp add: get_def tasks_at_def)
  from r have "nm \<notin> fst ` set (tasks tm)"
    by (simp add: registered_def map_of_eq_None_iff)
  then show "AList.delete nm (tasks tm) = tasks tm"
    by (rule delete_id)
qed

lemma counted_remove:
  assumes "counted tm"
  shows "counted (after (remove tm arg))"
proof (cases "registered tm (remove_name arg)")
  case None
  from not_registered_get [OF this] assms show ?thesis
    by (auto simp: remove_def Let_def counted_def completed_tasks_def priv_emit_def
        assign_null_delete_def)
next
  case (Some t)
  from assms have d: "distinct (map fst (tasks tm))"
    and cc: "completedCount tm = int (completed_tasks tm)"
    by (simp_all add: counted_def)
  from Some have m: "map_of (tasks tm) (remove_name arg) = Some t"
    by (simp add: registered_def)
  from count_delete [OF d m, of completed]
  have cnt: "length (filter (\<lambda>(nm, t). completed t) (AList.delete (remove_name arg) (tasks tm)))
               + (if completed t then 1 else 0) = completed_tasks tm"
    by (simp add: completed_tasks_def)
  from Some have g: "get tm (remove_name arg) = TaskObject t"
    by (rule get_registered)
  show ?thesis
  proof (cases "remove_name arg = []")
    case True
    with assms show ?thesis by (simp add: remove_def Let_def)
  next
    case False
    with g cnt cc d show ?thesis
      by (auto simp: remove_def Let_def counted_def completed_tasks_def priv_emit_def
          assign_null_delete_def distinct_delete)
  qed
qed

lemma counted_priv_tick: "counted tm \<Longrightarrow> counted (priv_tick now tm)"
  using tick_loop_counted [of tm now "map fst (tasks tm)"]
  by (simp add: priv_tick_def Let_def counted_def completed_tasks_def priv_emit_def)

lemma counted_clock_wakeup: "counted tm \<Longrightarrow> counted (clock_wakeup now tm)"
  using counted_priv_tick [of tm now]
  by (simp add: clock_wakeup_def interval_handler_def counted_def completed_tasks_def)

lemma counted_priv_add:
  assumes "counted tm" and "not_completed_arg arg"
  shows "counted (after (priv_add tm arg))"
proof (cases "priv_add tm arg")
  case (Inl p)
  then have "after (priv_add tm arg) = tm"
    by (cases p) (simp add: priv_add_InlD)
  with assms show ?thesis by simp
next
  case (Inr tm')
  from priv_add_InrD [OF this] assms(2) obtain task where
    free: "registered tm (name task) = None" and
    tm': "tm' = priv_emit TaskAdded (TaskObject task)
                 (tm\<lparr>tasks := AList.update (name task) task (tasks tm)\<rparr>)" and
    nc: "\<not> completed task"
    by blast
  from assms(1) have d: "distinct (map fst (tasks tm))"
    and cc: "completedCount tm = int (completed_tasks tm)"
    by (simp_all add: counted_def)
  from free have "map_of (tasks tm) (name task) = None"
    by (simp add: registered_def)
  from count_fresh [OF this, of completed task] nc
  have "completed_tasks tm' = completed_tasks tm"
    by (simp add: tm' completed_tasks_def priv_emit_def)
  moreover from d have "distinct (map fst (tasks tm'))"
    by (simp add: tm' priv_emit_def distinct_update)
  moreover have "completedCount tm' = completedCount tm"
    by (simp add: tm' priv_emit_def)
  ultimately show ?thesis
    using cc Inr by (simp add: counted_def)
qed

lemma counted_add_each:
  "counted tm \<Longrightarrow> list_all not_completed_arg args \<Longrightarrow> counted (after (add_each tm args))"
proof (induction args arbitrary: tm)
  case Nil
  then show ?case by simp
next
  case (Cons a args)
  then have step: "counted (after (priv_add tm a))"
    by (simp add: counted_priv_add)
  show ?case
  proof (cases "priv_add tm a")
    case (Inl p)
    with step show ?thesis by simp
  next
    case (Inr tm')
    with step Cons show ?thesis by simp
  qed
qed

lemma counted_add:
  "counted tm \<Longrightarrow> list_all not_completed_arg (ensureArray input) \<Longrightarrow>
   counted (after (add tm input))"
  by (simp add: add_def counted_add_each)

section \<open>Which tasks a tick executes\<close>

text \<open>
  C4. Take a scheduler whose registry has distinct keys, a task registered in it and a tick
  interval of at least 1, as the data model requires. The tick pass executes the task if and
  only if, in the state in which the pass starts, the task is enabled, is not completed, and
  \<open>tickCount\<close> is a multiple of its tick interval.
\<close>

theorem eligibility_law:
  assumes "distinct (map fst (tasks tm))" and "registered tm nm = Some t"
    and "0 < tickInterval t"
  shows "executes now tm nm \<longleftrightarrow>
           enabled t \<and> \<not> completed t \<and> tickCount tm mod tickInterval t = 0"
proof -
  from assms(1,2) have "executes now tm nm \<longleftrightarrow>
      currentRuns (after_pass now (tickCount tm) t) = currentRuns t + 1"
    by (simp add: executes_def registered_priv_tick)
  also have "\<dots> \<longleftrightarrow> enabled t \<and> \<not> completed t \<and> tickCount tm mod tickInterval t = 0"
    using assms(3)
    by (auto simp: after_pass_def tick_due_def Task_run_def Let_def)
  finally show ?thesis .
qed

theorem eligibility_law_witness:
  "distinct (map fst (tasks pair_started))
   \<and> registered pair_started ''a'' = Some task_a
   \<and> 0 < tickInterval task_a
   \<and> enabled task_a \<and> \<not> completed task_a
   \<and> tickCount pair_started mod tickInterval task_a = 0
   \<and> executes 1000 pair_started ''a''
   \<and> registered pair_ticked ''a'' = Some task_a_done
   \<and> completed task_a_done
   \<and> \<not> executes 2000 pair_ticked ''a''"
proof -
  have a: "distinct (map fst (tasks pair_started))" "registered pair_started ''a'' = Some task_a"
    "0 < tickInterval task_a"
    by (simp_all add: pair_started_value registered_def task_defs)
  have b: "distinct (map fst (tasks pair_ticked))"
    "registered pair_ticked ''a'' = Some task_a_done" "0 < tickInterval task_a_done"
    by (simp_all add: pair_ticked_value registered_def task_defs)
  have c: "enabled task_a" "\<not> completed task_a" "completed task_a_done"
    "tickCount pair_started mod tickInterval task_a = 0"
    by (simp_all add: pair_started_value task_defs)
  from eligibility_law [OF a, of 1000] eligibility_law [OF b, of 2000] a b c
  show ?thesis by simp
qed

section \<open>The tick counter\<close>

text \<open>
  C5. The handler that the clock calls adds exactly 1 to \<open>tickCount\<close>, and so does a clock
  wakeup while an interval is set, which is the case while the scheduler runs. \<open>start\<close>
  and \<open>reset\<close> set \<open>tickCount\<close> to 0. \<open>pause\<close> leaves it alone, and so does \<open>pause\<close>
  followed by \<open>resume\<close>: counting continues from the value before the pause.
\<close>

theorem tick_monotonicity:
  "tickCount (interval_handler now tm) = tickCount tm + 1
   \<and> (timer tm \<noteq> None \<longrightarrow> tickCount (clock_wakeup now tm) = tickCount tm + 1)
   \<and> tickCount (start now tm) = 0
   \<and> tickCount (reset tm) = 0
   \<and> tickCount (pause tm) = tickCount tm
   \<and> tickCount (resume (pause tm)) = tickCount tm"
  by (simp add: interval_handler_def clock_wakeup_def tickCount_priv_tick start_def reset_def
      priv_reset_def pause_def resume_def priv_run_def Let_def)

theorem tick_monotonicity_witness:
  "timer (clock_wakeup 1000 (start 0 (TaskTimer NoArg))) \<noteq> None
   \<and> tickCount (clock_wakeup 1000 (start 0 (TaskTimer NoArg))) = 1
   \<and> tickCount (clock_wakeup 2000 (clock_wakeup 1000 (start 0 (TaskTimer NoArg)))) = 1 + 1
   \<and> tickCount (resume (pause (clock_wakeup 1000 (start 0 (TaskTimer NoArg))))) = 1"
  using tick_monotonicity [of 2000 "clock_wakeup 1000 (start 0 (TaskTimer NoArg))"]
  by (simp add: eval_defs)

section \<open>Adding under a name that is taken\<close>

text \<open>
  C6. In every scheduler state, \<open>add\<close> with one task whose resolved name is the name of a
  registered task throws the naming conflict. The state at the throw is the state before
  the call: the registry is as it was and no event has been emitted.
\<close>

theorem add_naming_conflict:
  assumes "registered tm (resolved_name tm arg) \<noteq> None"
  shows "add tm (One arg) = Inl (NamingConflict (resolved_name tm arg), tm)"
proof -
  from assms obtain t where "registered tm (resolved_name tm arg) = Some t"
    by blast
  then have "truthy (get tm (resolved_name tm arg))"
    by (simp add: get_registered)
  then show ?thesis
    by (simp add: add_def priv_add_def Let_def)
qed

theorem add_naming_conflict_witness:
  "registered solo_added (resolved_name solo_added (OfOptions (forever ''a''))) \<noteq> None
   \<and> add solo_added (One (OfOptions (forever ''a''))) = Inl (NamingConflict ''a'', solo_added)"
proof -
  have nm: "resolved_name solo_added (OfOptions (forever ''a'')) = ''a''"
    by (simp add: eval_defs)
  have taken: "registered solo_added (resolved_name solo_added (OfOptions (forever ''a''))) \<noteq> None"
    by (simp add: nm) (simp add: solo_added_value registered_def)
  from add_naming_conflict [OF taken] taken nm show ?thesis
    by simp
qed

section \<open>Removing a task\<close>

text \<open>
  C7, at one run. A new scheduler has no task. \<open>remove\<close> with the name \<open>toString\<close> does
  not throw: \<open>get\<close> finds the function of that name, which the tasks object inherits, and
  \<open>remove\<close> goes on to emit a \<open>taskRemoved\<close> event that carries the function.
\<close>

theorem remove_inherited_name:
  "taskCount (TaskTimer NoArg) = 0
   \<and> registered (TaskTimer NoArg) ''toString'' = None
   \<and> get (TaskTimer NoArg) ''toString'' = Builtin ''toString''
   \<and> remove (TaskTimer NoArg) (ByName ''toString'')
       = Inr ((TaskTimer NoArg)\<lparr>emitted := [(TaskRemoved, Builtin ''toString'')]\<rparr>)"
  by (simp add: eval_defs)

text \<open>
  What \<open>remove\<close> does otherwise. It throws not-found, in the state before the call, when
  \<open>get\<close> finds nothing under the resolved name: no task is registered under it and it is
  not an inherited name. When a task is registered under the name, and the name is not
  empty, \<open>remove\<close> succeeds: if the task is completed then \<open>completedCount\<close> goes down by 1
  unless it is 0 already, so it does not become negative, and otherwise it stays; the entry
  is deleted from the registry, and one \<open>taskRemoved\<close> event that carries the registered
  task is emitted.
\<close>

lemma remove_not_found:
  assumes "registered tm (remove_name arg) = None"
    and "\<not> tasks_proto tm \<or> remove_name arg \<notin> set Object_prototype"
  shows "remove tm arg = Inl (NotFound (remove_name arg), tm)"
  using assms by (auto simp: remove_def Let_def get_def tasks_at_def)

lemma remove_registered:
  assumes "registered tm (remove_name arg) = Some task" and "remove_name arg \<noteq> []"
  shows "\<exists>tm'. remove tm arg = Inr tm'
           \<and> completedCount tm' =
               (if completed task \<and> 0 < completedCount tm then completedCount tm - 1
                else completedCount tm)
           \<and> (0 \<le> completedCount tm \<longrightarrow> 0 \<le> completedCount tm')
           \<and> tasks tm' = AList.delete (remove_name arg) (tasks tm)
           \<and> registered tm' (remove_name arg) = None
           \<and> emitted tm' = emitted tm @ [(TaskRemoved, TaskObject task)]"
  using assms get_registered [OF assms(1)]
  by (auto simp: remove_def Let_def priv_emit_def assign_null_delete_def registered_def
      delete_conv)

section \<open>Generated names\<close>

text \<open>
  C8 as the claim states it, at one run. One task is registered, under the name \<open>foo\<close>.
  A callback added now is named \<open>task-2\<close>, although \<open>task-1\<close> is not in use.
\<close>

theorem generated_name_counterexample:
  "taskCount foo_added = 1
   \<and> resolved_name foo_added (OfCallback 7) = ''task-2''
   \<and> task_name 1 = ''task-1''
   \<and> registered foo_added (task_name 1) = None"
  by (simp add: foo_added_value eval_defs)

text \<open>
  A generated name is not an inherited one, so \<open>get\<close> finds something under it exactly when
  a task is registered under it. The search for a name starts above the task count and
  stops at the first free name.
\<close>

lemma task_name_not_inherited: "task_name k \<notin> set Object_prototype"
  by (simp add: task_name_def Object_prototype_def)

lemma task_name_taken: "truthy (get tm (task_name k)) \<longleftrightarrow> registered tm (task_name k) \<noteq> None"
  using task_name_not_inherited [of k]
  by (auto simp: get_def tasks_at_def split: option.splits)

lemma loop_spec:
  "\<exists>N. priv_getNewTaskName_loop tm num = task_name N \<and> num < N
       \<and> registered tm (task_name N) = None
       \<and> (\<forall>k. num < k \<and> k < N \<longrightarrow> registered tm (task_name k) \<noteq> None)"
proof (induction tm num rule: priv_getNewTaskName_loop.induct)
  case (1 tm num)
  show ?case
  proof (cases "truthy (get tm (task_name (num + 1)))")
    case True
    from "1.IH" [OF True] obtain N where
      eq: "priv_getNewTaskName_loop tm (num + 1) = task_name N" and
      above: "num + 1 < N" and
      free: "registered tm (task_name N) = None" and
      taken: "\<forall>k. num + 1 < k \<and> k < N \<longrightarrow> registered tm (task_name k) \<noteq> None"
      by blast
    from True eq have "priv_getNewTaskName_loop tm num = task_name N"
      by (subst priv_getNewTaskName_loop.simps) simp
    moreover from above have "num < N" by simp
    moreover have "registered tm (task_name k) \<noteq> None" if "num < k \<and> k < N" for k
    proof (cases "k = num + 1")
      case True
      with \<open>truthy (get tm (task_name (num + 1)))\<close> show ?thesis
        by (simp add: task_name_taken)
    next
      case False
      with that have "num + 1 < k \<and> k < N" by simp
      with taken show ?thesis by blast
    qed
    ultimately show ?thesis using free by blast
  next
    case False
    then have "priv_getNewTaskName_loop tm num = task_name (num + 1)"
      by (subst priv_getNewTaskName_loop.simps) simp
    moreover from False have "registered tm (task_name (num + 1)) = None"
      by (simp add: task_name_taken)
    ultimately show ?thesis
      by (intro exI [of _ "num + 1"]) auto
  qed
qed

lemma resolved_name_generated:
  assumes "arg = OfCallback cb \<or> (arg = OfOptions opts \<and> falsy_name (opt_name opts))"
  shows "resolved_name tm arg = priv_getNewTaskName tm"
  using assms by (auto simp: resolved_name_def resolve_def Let_def falsy_name_def no_options_def)

lemma add_registers:
  assumes "add tm (One arg) = Inr tm'"
  shows "\<exists>task. registered tm' (resolved_name tm arg) = Some task
           \<and> name task = resolved_name tm arg"
proof -
  from assms have "priv_add tm arg = Inr tm'"
    by (simp add: add_def split: sum.splits)
  from priv_add_InrD [OF this] obtain task where
    "name task = resolved_name tm arg"
    "tm' = priv_emit TaskAdded (TaskObject task)
             (tm\<lparr>tasks := AList.update (name task) task (tasks tm)\<rparr>)"
    by blast
  then show ?thesis
    by (auto simp: registered_def priv_emit_def update_conv)
qed

text \<open>
  C8, amended. A task added as a bare callback, or as options without a name, is named
  \<open>task-N\<close> for the least \<open>N\<close> above the current task count such that \<open>task-N\<close> is not a
  registered name; when \<open>add\<close> succeeds, the task is registered under that name and carries
  it.
\<close>

theorem generated_name:
  assumes "arg = OfCallback cb \<or> (arg = OfOptions opts \<and> falsy_name (opt_name opts))"
  shows "\<exists>N. resolved_name tm arg = task_name N \<and> taskCount tm < N
           \<and> registered tm (task_name N) = None
           \<and> (\<forall>k. taskCount tm < k \<and> k < N \<longrightarrow> registered tm (task_name k) \<noteq> None)
           \<and> (\<forall>tm'. add tm (One arg) = Inr tm' \<longrightarrow>
                 (\<exists>task. registered tm' (task_name N) = Some task
                    \<and> name task = task_name N))"
proof -
  from loop_spec [of tm "taskCount tm"] obtain N where
    N: "priv_getNewTaskName tm = task_name N" "taskCount tm < N"
      "registered tm (task_name N) = None"
      "\<forall>k. taskCount tm < k \<and> k < N \<longrightarrow> registered tm (task_name k) \<noteq> None"
    unfolding priv_getNewTaskName_def by blast
  from assms have r: "resolved_name tm arg = task_name N"
    by (simp add: resolved_name_generated N(1))
  with add_registers [of tm arg] have
    "\<forall>tm'. add tm (One arg) = Inr tm' \<longrightarrow>
       (\<exists>task. registered tm' (task_name N) = Some task \<and> name task = task_name N)"
    by simp
  with r N show ?thesis by blast
qed

theorem generated_name_witness:
  "resolved_name foo_added (OfCallback 7) = task_name 2
   \<and> taskCount foo_added < 2
   \<and> registered foo_added (task_name 2) = None
   \<and> registered (after (add foo_added (One (OfCallback 7)))) (task_name 2)
       = Some \<lparr> name = ''task-2'', tickInterval = 1, totalRuns = 0, stopDate = None,
                currentRuns = 0, enabled = True, completed = False, callback = 7 \<rparr>"
  using generated_name [of "OfCallback 7" 7 no_options foo_added]
  by (simp add: foo_added_value eval_defs)

section \<open>The interval setter\<close>

text \<open>
  C9. Setting \<open>interval\<close> to a falsy number (zero or \<^verbatim>\<open>NaN\<close>) stores the default of 1000
  milliseconds; setting it to a truthy number stores that number. The other option is not
  touched.
\<close>

theorem interval_setter:
  "(falsy v \<longrightarrow> interval (options (set_interval v tm)) = Finite 1000)
   \<and> (\<not> falsy v \<longrightarrow> interval (options (set_interval v tm)) = v)
   \<and> stopOnCompleted (options (set_interval v tm)) = stopOnCompleted (options tm)"
  by (simp add: set_interval_def DEFAULT_TIMER_OPTIONS_def)

theorem interval_setter_witness:
  "falsy (Finite 0) \<and> falsy NaN \<and> \<not> falsy (Finite 250)
   \<and> interval (options (set_interval (Finite 0) (TaskTimer (IntervalArg (Finite 50)))))
       = Finite 1000
   \<and> interval (options (set_interval NaN (TaskTimer (IntervalArg (Finite 50))))) = Finite 1000
   \<and> interval (options (set_interval (Finite 250) (TaskTimer (IntervalArg (Finite 50)))))
       = Finite 250"
  using interval_setter [of "Finite 0" "TaskTimer (IntervalArg (Finite 50))"]
    interval_setter [of NaN "TaskTimer (IntervalArg (Finite 50))"]
    interval_setter [of "Finite 250" "TaskTimer (IntervalArg (Finite 50))"]
  by simp

section \<open>Reset\<close>

text \<open>
  C10. \<open>reset\<close> keeps the two options \<open>interval\<close> and \<open>stopOnCompleted\<close>. It replaces the
  registry by an empty object, sets \<open>tickCount\<close>, \<open>runCount\<close>, \<open>startTime\<close>, \<open>stopTime\<close> and
  \<open>completedCount\<close> to 0 and the state to idle, clears the interval, and emits one
  \<open>reset\<close> event and nothing else.
\<close>

theorem reset_frame:
  "interval (options (reset tm)) = interval (options tm)
   \<and> stopOnCompleted (options (reset tm)) = stopOnCompleted (options tm)
   \<and> tasks (reset tm) = []
   \<and> tasks_proto (reset tm)
   \<and> tickCount (reset tm) = 0
   \<and> runCount (reset tm) = 0
   \<and> startTime (reset tm) = 0
   \<and> stopTime (reset tm) = 0
   \<and> completedCount (reset tm) = 0
   \<and> state (reset tm) = IDLE
   \<and> timer (reset tm) = None
   \<and> emitted (reset tm) = emitted tm @ [(Reset, Undefined)]"
  by (simp add: reset_def priv_reset_def priv_stop_def priv_emit_def Let_def)

theorem reset_frame_witness:
  "tasks pair_ticked \<noteq> [] \<and> tickCount pair_ticked = 1 \<and> completedCount pair_ticked = 1
   \<and> state pair_ticked = RUNNING \<and> timer pair_ticked \<noteq> None
   \<and> options (reset pair_ticked) = options pair_ticked
   \<and> tasks (reset pair_ticked) = [] \<and> tickCount (reset pair_ticked) = 0
   \<and> completedCount (reset pair_ticked) = 0
   \<and> state (reset pair_ticked) = IDLE \<and> timer (reset pair_ticked) = None"
  using reset_frame [of pair_ticked]
  by (simp add: pair_ticked_value eval_defs)

end
